theory Spec2Isabelle
  imports Main "HOL-Library.Word"
begin

section \<open>The FHEAuction contract\<close>

text \<open>
  A shallow embedding of the Solidity contract \<open>FHEAuction\<close> (sealed-bid auction manager).
  Solidity's fixed-width unsigned integers are words; \<open>address\<close> is a 160-bit word.
\<close>

type_synonym address = "160 word"
type_synonym uint256 = "256 word"
type_synonym uint64 = "64 word"
type_synonym uint32 = "32 word"
type_synonym bytes32 = "256 word"
type_synonym bytes = "8 word list"

subsection \<open>The encrypted-arithmetic engine\<close>

text \<open>
  Modelled from the spec: the encrypted-arithmetic engine (the library \<open>FHE.sol\<close> of
  \<open>@fhevm/solidity\<close>, imported by the contract and not part of its source). The spec gives
  its interface: \<open>encrypt\<close>, \<open>import\<close> (fails closed), \<open>add\<close>, \<open>compareGreater\<close>,
  \<open>compareLessOrEqual\<close>, \<open>obliviousSelect\<close> and \<open>grantCapability\<close>, all total on valid
  handles, and asks for a plaintext-simulating implementation of it.

  A ciphertext handle is an identity (\<open>handle\<close>) together with the plaintext it stands for
  (\<open>plain\<close>, what an authorised decryption returns). The contract never reads \<open>plain\<close>; only
  the engine's operations do. Every operation of the engine returns a handle with a new
  identity. The engine's state is the next identity and the access-control list: the set of
  (handle identity, principal) pairs granted so far. Arithmetic on \<open>euint64\<close> is arithmetic
  of 64-bit unsigned integers, as in the library: the sum is total and wraps around.
\<close>

datatype 'a cipher = Cipher (handle: nat) (plain: 'a)

type_synonym euint32 = "uint32 cipher"
type_synonym euint64 = "uint64 cipher"
type_synonym eaddress = "address cipher"
type_synonym ebool = "bool cipher"

record engine =
  nextHandle :: nat
  acl :: "(nat \<times> address) set"

definition fresh :: "'a \<Rightarrow> engine \<Rightarrow> 'a cipher \<times> engine" where
  "fresh v e = (Cipher (nextHandle e) v, e\<lparr>nextHandle := Suc (nextHandle e)\<rparr>)"

definition asEuint32 :: "uint32 \<Rightarrow> engine \<Rightarrow> euint32 \<times> engine" where
  "asEuint32 v e = fresh v e"

definition asEuint64 :: "uint64 \<Rightarrow> engine \<Rightarrow> euint64 \<times> engine" where
  "asEuint64 v e = fresh v e"

definition asEaddress :: "address \<Rightarrow> engine \<Rightarrow> eaddress \<times> engine" where
  "asEaddress v e = fresh v e"

definition FHE_gt :: "euint32 \<Rightarrow> euint32 \<Rightarrow> engine \<Rightarrow> ebool \<times> engine" where
  "FHE_gt a b e = fresh (plain b < plain a) e"

definition FHE_le :: "euint64 \<Rightarrow> euint64 \<Rightarrow> engine \<Rightarrow> ebool \<times> engine" where
  "FHE_le a b e = fresh (plain a \<le> plain b) e"

definition FHE_add :: "euint64 \<Rightarrow> euint64 \<Rightarrow> engine \<Rightarrow> euint64 \<times> engine" where
  "FHE_add a b e = fresh (plain a + plain b) e"

definition FHE_select :: "ebool \<Rightarrow> 'a cipher \<Rightarrow> 'a cipher \<Rightarrow> engine \<Rightarrow> 'a cipher \<times> engine" where
  "FHE_select c x y e = fresh (if plain c then plain x else plain y) e"

definition FHE_allow :: "'a cipher \<Rightarrow> address \<Rightarrow> engine \<Rightarrow> engine" where
  "FHE_allow h who e = e\<lparr>acl := insert (handle h, who) (acl e)\<rparr>"

subsection \<open>Call environment\<close>

text \<open>
  What a call reads from its environment: \<open>address(this)\<close>, \<open>msg.sender\<close> and
  \<open>block.timestamp\<close> (a \<open>uint256\<close> in Solidity).
\<close>

record env =
  this :: address
  msg_sender :: address
  block_timestamp :: uint256

definition FHE_allowThis :: "'a cipher \<Rightarrow> env \<Rightarrow> engine \<Rightarrow> engine" where
  "FHE_allowThis h c e = FHE_allow h (this c) e"

text \<open>
  The engine's check of a caller-submitted ciphertext and its proof is a parameter of the
  model: \<open>vf c h p\<close> is \<open>Some v\<close> when the proof \<open>p\<close> verifies for the external handle \<open>h\<close>
  in the call environment \<open>c\<close>, \<open>v\<close> being the plaintext of the submitted ciphertext, and
  \<open>None\<close> when the engine rejects it.
\<close>

type_synonym verifier = "env \<Rightarrow> bytes32 \<Rightarrow> bytes \<Rightarrow> uint32 option"

definition fromExternal ::
  "verifier \<Rightarrow> env \<Rightarrow> bytes32 \<Rightarrow> bytes \<Rightarrow> engine \<Rightarrow> (euint32 \<times> engine) option" where
  "fromExternal vf c h p e = (case vf c h p of None \<Rightarrow> None | Some v \<Rightarrow> Some (fresh v e))"

subsection \<open>Contract state\<close>

record Auction =
  name :: string
  startPrice :: euint32
  highestBid :: euint32
  highestBidder :: eaddress
  lastBidTime :: euint64
  createdAt :: uint256
  created :: bool

datatype event = AuctionCreated uint256 string | BidSubmitted uint256 address

text \<open>
  A Solidity mapping is total: a key never written reads as the zero value of the struct.
  The engine's state and the event log are part of the state a call can change.
\<close>

record state =
  auctionCount :: uint256
  auctions :: "uint256 \<Rightarrow> Auction"
  fhe :: engine
  events :: "event list"

definition zeroAuction :: Auction where
  "zeroAuction = \<lparr>name = [], startPrice = Cipher 0 0, highestBid = Cipher 0 0,
     highestBidder = Cipher 0 0, lastBidTime = Cipher 0 0, createdAt = 0, created = False\<rparr>"

definition deployed :: state where
  "deployed = \<lparr>auctionCount = 0, auctions = (\<lambda>_. zeroAuction),
     fhe = \<lparr>nextHandle = 1, acl = {}\<rparr>, events = []\<rparr>"

datatype error = AUCTION_NOT_FOUND | ArithmeticOverflow | InputRejected

subsection \<open>Operations\<close>

text \<open>
  \<open>++auctionCount\<close> is checked arithmetic (Solidity 0.8): it reverts when the counter is
  at its maximum. A reverted call returns \<open>Inl\<close> and no state.
\<close>

definition createAuction :: "env \<Rightarrow> string \<Rightarrow> uint32 \<Rightarrow> state \<Rightarrow> error + (uint256 \<times> state)" where
  "createAuction c nm sp s =
     (if auctionCount s = - 1 then Inl ArithmeticOverflow
      else
        let aid = auctionCount s + 1;
            (encStart, e1) = asEuint32 sp (fhe s);
            encHighest = encStart;
            (encBidder, e2) = asEaddress 0 e1;
            (encNow, e3) = asEuint64 (ucast (block_timestamp c)) e2;
            a = \<lparr>name = nm, startPrice = encStart, highestBid = encHighest,
                 highestBidder = encBidder, lastBidTime = encNow,
                 createdAt = block_timestamp c, created = True\<rparr>;
            e4 = FHE_allowThis (startPrice a) c e3;
            e5 = FHE_allowThis (highestBid a) c e4;
            e6 = FHE_allowThis (highestBidder a) c e5;
            e7 = FHE_allowThis (lastBidTime a) c e6
        in Inr (aid, s\<lparr>auctionCount := aid, auctions := (auctions s)(aid := a), fhe := e7,
                      events := events s @ [AuctionCreated aid nm]\<rparr>))"

definition getAuctionInfo :: "uint256 \<Rightarrow> state \<Rightarrow> error + (string \<times> uint256)" where
  "getAuctionInfo aid s =
     (if \<not> created (auctions s aid) then Inl AUCTION_NOT_FOUND
      else let a = auctions s aid in Inr (name a, createdAt a))"

definition getEncryptedHighestBidder :: "uint256 \<Rightarrow> state \<Rightarrow> error + eaddress" where
  "getEncryptedHighestBidder aid s =
     (if \<not> created (auctions s aid) then Inl AUCTION_NOT_FOUND
      else Inr (highestBidder (auctions s aid)))"

definition getEncryptedHighestBid :: "uint256 \<Rightarrow> state \<Rightarrow> error + euint32" where
  "getEncryptedHighestBid aid s =
     (if \<not> created (auctions s aid) then Inl AUCTION_NOT_FOUND
      else Inr (highestBid (auctions s aid)))"

definition bid ::
  "verifier \<Rightarrow> env \<Rightarrow> uint256 \<Rightarrow> bytes32 \<Rightarrow> bytes \<Rightarrow> state \<Rightarrow> error + (ebool \<times> state)" where
  "bid vf c aid inputEuint32 inputProof s =
     (if \<not> created (auctions s aid) then Inl AUCTION_NOT_FOUND
      else
        case fromExternal vf c inputEuint32 inputProof (fhe s) of
          None \<Rightarrow> Inl InputRejected
        | Some (encBid, e1) \<Rightarrow>
            let a = auctions s aid;
                (isHighest, e2) = FHE_gt encBid (highestBid a) e1;
                (hb, e3) = FHE_select isHighest encBid (highestBid a) e2;
                a = a\<lparr>highestBid := hb\<rparr>;
                (encSender, e4) = asEaddress (msg_sender c) e3;
                (hbr, e5) = FHE_select isHighest encSender (highestBidder a) e4;
                a = a\<lparr>highestBidder := hbr\<rparr>;
                (encNow, e6) = asEuint64 (ucast (block_timestamp c)) e5;
                (lbt, e7) = FHE_select isHighest encNow (lastBidTime a) e6;
                a = a\<lparr>lastBidTime := lbt\<rparr>;
                e8 = FHE_allowThis (highestBid a) c e7;
                e9 = FHE_allowThis (highestBidder a) c e8;
                e10 = FHE_allowThis (lastBidTime a) c e9;
                e11 = FHE_allow isHighest (msg_sender c) e10;
                e12 = FHE_allow (highestBid a) (msg_sender c) e11;
                e13 = FHE_allow (highestBidder a) (msg_sender c) e12;
                e14 = FHE_allow (lastBidTime a) (msg_sender c) e13
            in Inr (isHighest, s\<lparr>auctions := (auctions s)(aid := a), fhe := e14,
                                   events := events s @ [BidSubmitted aid (msg_sender c)]\<rparr>))"

definition checkEnded :: "env \<Rightarrow> uint256 \<Rightarrow> state \<Rightarrow> error + (ebool \<times> state)" where
  "checkEnded c aid s =
     (if \<not> created (auctions s aid) then Inl AUCTION_NOT_FOUND
      else
        let a = auctions s aid;
            (window, e1) = asEuint64 600 (fhe s);
            (deadline, e2) = FHE_add (lastBidTime a) window e1;
            (encNow, e3) = asEuint64 (ucast (block_timestamp c)) e2;
            (ended, e4) = FHE_le deadline encNow e3;
            e5 = FHE_allow ended (msg_sender c) e4
        in Inr (ended, s\<lparr>fhe := e5\<rparr>))"

subsection \<open>Calls in sequence\<close>

text \<open>
  The host ledger runs the external calls one after the other, each to completion. A call
  that reverts leaves the state as it was.
\<close>

datatype call =
    CreateAuction string uint32
  | GetAuctionInfo uint256
  | GetEncryptedHighestBidder uint256
  | GetEncryptedHighestBid uint256
  | Bid uint256 bytes32 bytes
  | CheckEnded uint256

datatype retval =
    RetId uint256
  | RetInfo string uint256
  | RetAddress eaddress
  | RetUint32 euint32
  | RetBool ebool

fun exec :: "verifier \<Rightarrow> env \<Rightarrow> call \<Rightarrow> state \<Rightarrow> (error + retval) \<times> state" where
  "exec vf c (CreateAuction nm sp) s =
     (case createAuction c nm sp s of Inl err \<Rightarrow> (Inl err, s) | Inr (aid, s') \<Rightarrow> (Inr (RetId aid), s'))"
| "exec vf c (GetAuctionInfo aid) s =
     (case getAuctionInfo aid s of Inl err \<Rightarrow> (Inl err, s) | Inr (nm, t) \<Rightarrow> (Inr (RetInfo nm t), s))"
| "exec vf c (GetEncryptedHighestBidder aid) s =
     (case getEncryptedHighestBidder aid s of Inl err \<Rightarrow> (Inl err, s) | Inr h \<Rightarrow> (Inr (RetAddress h), s))"
| "exec vf c (GetEncryptedHighestBid aid) s =
     (case getEncryptedHighestBid aid s of Inl err \<Rightarrow> (Inl err, s) | Inr h \<Rightarrow> (Inr (RetUint32 h), s))"
| "exec vf c (Bid aid h p) s =
     (case bid vf c aid h p s of Inl err \<Rightarrow> (Inl err, s) | Inr (r, s') \<Rightarrow> (Inr (RetBool r), s'))"
| "exec vf c (CheckEnded aid) s =
     (case checkEnded c aid s of Inl err \<Rightarrow> (Inl err, s) | Inr (r, s') \<Rightarrow> (Inr (RetBool r), s'))"

fun exec_all :: "verifier \<Rightarrow> (env \<times> call) list \<Rightarrow> state \<Rightarrow> state" where
  "exec_all vf [] s = s"
| "exec_all vf ((c, x) # txs) s = exec_all vf txs (snd (exec vf c x s))"

subsection \<open>What the leader fields stand for\<close>

text \<open>
  The plaintexts behind the three leader fields of an auction: the leading value, who
  submitted it and when.
\<close>

definition leader :: "Auction \<Rightarrow> uint32 \<times> address \<times> uint64" where
  "leader a = (plain (highestBid a), plain (highestBidder a), plain (lastBidTime a))"

text \<open>
  The bids of a sequence of calls that are accepted for evaluation on auction \<open>aid\<close>: the
  calls of \<open>bid\<close> on that auction whose ciphertext the engine accepts, each with its value,
  its submitter and its submission time.
\<close>

datatype submitted = Submitted (bid_value: uint32) (bid_sender: address) (bid_time: uint256)

fun bids_on :: "verifier \<Rightarrow> uint256 \<Rightarrow> (env \<times> call) list \<Rightarrow> submitted list" where
  "bids_on vf aid [] = []"
| "bids_on vf aid ((c, Bid i h p) # txs) =
     (if i = aid
      then (case vf c h p of
              None \<Rightarrow> bids_on vf aid txs
            | Some v \<Rightarrow> Submitted v (msg_sender c) (block_timestamp c) # bids_on vf aid txs)
      else bids_on vf aid txs)"
| "bids_on vf aid (_ # txs) = bids_on vf aid txs"

text \<open>
  The bids of a sequence that were strictly greater than the leading value at their time of
  submission, \<open>cur\<close> being the leading value before the first of them.
\<close>

fun winning :: "uint32 \<Rightarrow> submitted list \<Rightarrow> submitted list" where
  "winning cur [] = []"
| "winning cur (b # bs) =
     (if cur < bid_value b then b # winning (bid_value b) bs else winning cur bs)"

text \<open>
  What a sequence of accepted bids makes of a leader triple, one bid after the other: a bid
  strictly above the leading value replaces the triple, any other bid leaves it.
\<close>

fun follow :: "uint32 \<times> address \<times> uint64 \<Rightarrow> submitted list \<Rightarrow> uint32 \<times> address \<times> uint64" where
  "follow l [] = l"
| "follow l (b # bs) =
     follow (if fst l < bid_value b then (bid_value b, bid_sender b, ucast (bid_time b)) else l) bs"

text \<open>The existing ids are the positive ids up to the counter.\<close>

definition dense :: "state \<Rightarrow> bool" where
  "dense s = (\<forall>i. created (auctions s i) = (0 < i \<and> i \<le> auctionCount s))"

subsection \<open>Sample runs\<close>

text \<open>
  The scenario of the contract's test: an auction "Widget" with start price 100 created at
  time 1000, then bids of 150, 120 and 200 by two callers. The sample verifier accepts every
  input with a non-empty proof and reads the value off the external handle. A second run
  creates an auction at the last timestamp that fits 64 bits.
\<close>

definition sample_verifier :: verifier where
  "sample_verifier c h p = (if p = [] then None else Some (ucast h))"

definition alice_at :: "uint256 \<Rightarrow> env" where
  "alice_at t = \<lparr>this = 192, msg_sender = 10, block_timestamp = t\<rparr>"

definition bob_at :: "uint256 \<Rightarrow> env" where
  "bob_at t = \<lparr>this = 192, msg_sender = 11, block_timestamp = t\<rparr>"

definition widget :: state where
  "widget = exec_all sample_verifier [(alice_at 1000, CreateAuction ''Widget'' 100)] deployed"

definition scenario :: "(env \<times> call) list" where
  "scenario = [(alice_at 1010, Bid 1 150 [1]), (bob_at 1020, Bid 1 120 [1]),
     (bob_at 1030, Bid 1 200 [1])]"

definition late :: state where
  "late = exec_all sample_verifier
     [(alice_at 18446744073709551615, CreateAuction ''Late'' 1)] deployed"

section \<open>Properties\<close>

subsection \<open>Unfolding the operations\<close>

lemmas engine_defs = fresh_def asEuint32_def asEuint64_def asEaddress_def FHE_gt_def FHE_le_def
  FHE_add_def FHE_select_def FHE_allow_def FHE_allowThis_def fromExternal_def

lemmas sample_defs = sample_verifier_def alice_at_def bob_at_def deployed_def zeroAuction_def

lemma bid_returns:
  assumes "created (auctions s aid)" and "vf c h p = Some v"
  shows "\<exists>r s'. bid vf c aid h p s = Inr (r, s')"
  using assms by (simp add: bid_def engine_defs Let_def)

lemma bid_InrD:
  assumes "bid vf c aid h p s = Inr (r, s')"
  shows "created (auctions s aid) \<and> (\<exists>v. vf c h p = Some v)"
  using assms by (auto simp: bid_def fromExternal_def split: if_splits option.splits)

lemma widget_auction:
  "auctions widget 1 = \<lparr>name = ''Widget'', startPrice = Cipher 1 100, highestBid = Cipher 1 100,
     highestBidder = Cipher 2 0, lastBidTime = Cipher 3 1000, createdAt = 1000, created = True\<rparr>"
  by (simp add: widget_def createAuction_def engine_defs sample_defs Let_def)

lemma widget_count: "auctionCount widget = 1"
  by (simp add: widget_def createAuction_def engine_defs sample_defs Let_def)

lemma widget_other: "aid \<noteq> 1 \<Longrightarrow> auctions widget aid = zeroAuction"
  by (simp add: widget_def createAuction_def engine_defs sample_defs Let_def)

lemma widget_grant: "(1, 192) \<in> acl (fhe widget)"
  by (simp add: widget_def createAuction_def engine_defs sample_defs Let_def)

lemma late_auction:
  "auctions late 1 = \<lparr>name = ''Late'', startPrice = Cipher 1 1, highestBid = Cipher 1 1,
     highestBidder = Cipher 2 0, lastBidTime = Cipher 3 18446744073709551615,
     createdAt = 18446744073709551615, created = True\<rparr>"
  by (simp add: late_def createAuction_def engine_defs sample_defs Let_def)

lemma checkEnded_plain:
  assumes "checkEnded c aid s = Inr (r, s')"
  shows "plain r = (plain (lastBidTime (auctions s aid)) + 600 \<le> ucast (block_timestamp c))"
  using assms by (auto simp: checkEnded_def engine_defs Let_def split: if_splits)

lemma checkEnded_returns:
  assumes "created (auctions s aid)"
  shows "\<exists>r s'. checkEnded c aid s = Inr (r, s') \<and> auctions s' = auctions s \<and>
           auctionCount s' = auctionCount s"
  using assms by (simp add: checkEnded_def engine_defs Let_def)

lemma unat_ucast_256_64: "unat (ucast (t :: uint256) :: uint64) = unat t mod 2 ^ 64"
  by (simp add: unsigned_ucast_eq take_bit_eq_mod)

lemma unat_plus_600: "unat ((l :: uint64) + 600) = (unat l + 600) mod 2 ^ 64"
  by (simp add: unat_word_ariths)

subsection \<open>The id counter\<close>

lemma word_le_inc: "(x :: 'a::len word) \<noteq> - 1 \<Longrightarrow> (y \<le> x + 1) = (y \<le> x \<or> y = x + 1)"
  by (meson inc_less_eq_iff linorder_not_less nle_le)

lemma word_less_inc: "(x :: 'a::len word) \<noteq> - 1 \<Longrightarrow> x < x + 1"
  by (meson inc_less_eq_triv_imp linorder_not_less)

lemma bid_unchanged:
  assumes "bid vf c aid h p s = Inr (r, s')"
  shows "created (auctions s' aid) = created (auctions s aid) \<and>
         startPrice (auctions s' aid) = startPrice (auctions s aid) \<and>
         auctionCount s' = auctionCount s \<and>
         (\<forall>j. j \<noteq> aid \<longrightarrow> auctions s' j = auctions s j)"
  using assms
  by (auto simp: bid_def engine_defs Let_def split: if_splits option.splits)

lemma createAuction_InrD:
  assumes "createAuction c nm sp s = Inr (i, s')"
  shows "auctionCount s \<noteq> - 1 \<and> i = auctionCount s + 1 \<and> auctionCount s' = i \<and>
         created (auctions s' i) \<and> (\<forall>j. j \<noteq> i \<longrightarrow> auctions s' j = auctions s j)"
  using assms by (auto simp: createAuction_def engine_defs Let_def split: if_splits)

lemma createAuction_returns:
  "auctionCount s \<noteq> - 1 \<Longrightarrow> \<exists>s'. createAuction c nm sp s = Inr (auctionCount s + 1, s')"
  by (simp add: createAuction_def engine_defs Let_def)

lemma createAuction_dense:
  assumes "dense s" and "createAuction c nm sp s = Inr (i, s')"
  shows "dense s'"
proof -
  from createAuction_InrD [OF assms(2)]
  have n: "auctionCount s \<noteq> - 1" and i: "i = auctionCount s + 1" and c: "auctionCount s' = i"
    and cr: "created (auctions s' i)" and o: "\<And>j. j \<noteq> i \<Longrightarrow> auctions s' j = auctions s j"
    by auto
  have pos: "0 < i"
    using word_less_inc [OF n] i by (metis word_not_simps(1) word_gt_0)
  show ?thesis
    unfolding dense_def
  proof
    fix j
    show "created (auctions s' j) = (0 < j \<and> j \<le> auctionCount s')"
    proof (cases "j = i")
      case True
      with cr pos c show ?thesis by simp
    next
      case False
      with o have "created (auctions s' j) = created (auctions s j)"
        by simp
      also have "\<dots> = (0 < j \<and> j \<le> auctionCount s)"
        using assms(1) by (simp add: dense_def)
      also have "\<dots> = (0 < j \<and> j \<le> auctionCount s')"
        using False word_le_inc [OF n, of j] by (simp add: c i)
      finally show ?thesis .
    qed
  qed
qed

lemma exec_dense:
  assumes "dense s"
  shows "dense (snd (exec vf c x s))"
proof (cases x)
  case (CreateAuction nm sp)
  then show ?thesis
    using assms createAuction_dense [of s c nm sp]
    by (auto split: sum.splits)
next
  case (Bid i h p)
  show ?thesis
  proof (cases "bid vf c i h p s")
    case (Inl e)
    with Bid assms show ?thesis by simp
  next
    case (Inr rs)
    obtain r s' where rs: "rs = (r, s')" by (cases rs)
    from bid_unchanged [OF Inr [unfolded rs]] assms
    have "dense s'"
      unfolding dense_def by (metis (full_types))
    with Bid Inr rs show ?thesis by simp
  qed
next
  case (CheckEnded i)
  then show ?thesis
    using assms by (auto simp: checkEnded_def engine_defs Let_def dense_def)
qed (use assms in \<open>auto split: sum.splits\<close>)

lemma exec_all_dense: "dense s \<Longrightarrow> dense (exec_all vf txs s)"
  by (induction txs arbitrary: s) (auto simp: exec_dense)

lemma deployed_dense: "dense deployed"
  by (simp add: dense_def deployed_def zeroAuction_def word_gt_0 not_le[symmetric])


lemma word_one_le: "(1 \<le> (i :: 'a::len word)) = (0 < i)"
  by (metis Word.dec_less_imp_less_eq cancel_comm_monoid_add_class.diff_cancel leD
      word_greater_zero_iff word_less_1)

lemma dense_set: "dense t \<Longrightarrow> {i. created (auctions t i)} = {1 .. auctionCount t}"
  unfolding dense_def atLeastAtMost_def atLeast_def atMost_def
  by (simp add: word_one_le set_eq_iff)

lemma dense_zero: "dense t \<Longrightarrow> \<not> created (auctions t 0)"
  by (simp add: dense_def)

lemma createAuction_first: "\<exists>s1. createAuction c nm sp deployed = Inr (1, s1)"
  using createAuction_returns [of deployed c nm sp] by (simp add: deployed_def)

lemma createAuction_new:
  assumes d: "dense s" and h: "createAuction c nm sp s = Inr (i, s')"
  shows "i = auctionCount s + 1 \<and> auctionCount s < i \<and> \<not> created (auctions s i) \<and>
      auctionCount s' = i \<and> {j. created (auctions s' j)} = {1 .. i}"
proof -
  from createAuction_InrD [OF h]
  have n: "auctionCount s \<noteq> - 1" and i: "i = auctionCount s + 1" and c: "auctionCount s' = i"
    by auto
  have lt: "auctionCount s < i"
    using word_less_inc [OF n] i by simp
  then have "\<not> created (auctions s i)"
    using d by (simp add: dense_def not_le)
  moreover have "{j. created (auctions s' j)} = {1 .. i}"
    using dense_set [OF createAuction_dense [OF d h]] c by simp
  ultimately show ?thesis
    using i c lt by simp
qed

subsection \<open>Grants are only added\<close>

lemma exec_acl_mono: "acl (fhe s) \<subseteq> acl (fhe (snd (exec vf c x s)))"
proof (cases x)
  case (CreateAuction nm sp)
  then show ?thesis
    by (auto simp: createAuction_def engine_defs Let_def)
next
  case (Bid i h p)
  then show ?thesis
    by (cases "vf c h p") (auto simp: bid_def engine_defs Let_def)
next
  case (CheckEnded i)
  then show ?thesis
    by (auto simp: checkEnded_def engine_defs Let_def)
qed (simp_all add: getAuctionInfo_def getEncryptedHighestBid_def getEncryptedHighestBidder_def Let_def)

lemma exec_all_acl_mono: "acl (fhe s) \<subseteq> acl (fhe (exec_all vf txs s))"
proof (induction txs arbitrary: s)
  case Nil
  show ?case by simp
next
  case (Cons t txs)
  obtain c x where t: "t = (c, x)" by (cases t)
  have "acl (fhe s) \<subseteq> acl (fhe (snd (exec vf c x s)))"
    by (rule exec_acl_mono)
  also have "\<dots> \<subseteq> acl (fhe (exec_all vf txs (snd (exec vf c x s))))"
    by (rule Cons.IH)
  finally show ?case by (simp add: t)
qed

subsection \<open>The leader triple along a run\<close>

lemma follow_append: "follow l (xs @ ys) = follow (follow l xs) ys"
  by (induction xs arbitrary: l) simp_all

lemma bids_on_Cons:
  "bids_on vf aid ((c, x) # txs) = bids_on vf aid [(c, x)] @ bids_on vf aid txs"
  by (cases x) (simp_all split: option.splits)

lemma exec_leader:
  assumes "created (auctions s aid)" and "aid \<le> auctionCount s"
  shows "created (auctions (snd (exec vf c x s)) aid) \<and>
         aid \<le> auctionCount (snd (exec vf c x s)) \<and>
         startPrice (auctions (snd (exec vf c x s)) aid) = startPrice (auctions s aid) \<and>
         leader (auctions (snd (exec vf c x s)) aid)
           = follow (leader (auctions s aid)) (bids_on vf aid [(c, x)])"
proof (cases x)
  case (CreateAuction nm sp)
  show ?thesis
  proof (cases "auctionCount s = - 1")
    case True
    with CreateAuction assms show ?thesis
      by (simp add: createAuction_def)
  next
    case False
    have "aid \<noteq> auctionCount s + 1" and "aid \<le> auctionCount s + 1"
      using word_less_inc [OF False] assms(2) by auto
    with CreateAuction False assms show ?thesis
      by (simp add: createAuction_def engine_defs Let_def)
  qed
next
  case (Bid i h p)
  show ?thesis
  proof (cases "vf c h p")
    case None
    with Bid assms show ?thesis
      by (simp add: bid_def engine_defs)
  next
    case (Some v)
    with Bid assms show ?thesis
      by (simp add: bid_def engine_defs Let_def leader_def)
  qed
next
  case (CheckEnded i)
  with assms show ?thesis
    by (simp add: checkEnded_def engine_defs Let_def)
qed (use assms in \<open>simp_all add: getAuctionInfo_def getEncryptedHighestBid_def
      getEncryptedHighestBidder_def Let_def\<close>)

lemma exec_all_startPrice:
  assumes "created (auctions s aid)" and "aid \<le> auctionCount s"
  shows "startPrice (auctions (exec_all vf txs s) aid) = startPrice (auctions s aid)"
  using assms
proof (induction txs arbitrary: s)
  case Nil
  show ?case by simp
next
  case (Cons t txs)
  obtain c x where t: "t = (c, x)" by (cases t)
  let ?s = "snd (exec vf c x s)"
  from exec_leader [OF Cons.prems, of vf c x]
  have "created (auctions ?s aid)" and "aid \<le> auctionCount ?s"
    and "startPrice (auctions ?s aid) = startPrice (auctions s aid)"
    by auto
  with Cons.IH [of ?s] show ?case
    by (simp add: t)
qed

lemma exec_all_leader:
  assumes "created (auctions s aid)" and "aid \<le> auctionCount s"
  shows "leader (auctions (exec_all vf txs s) aid)
           = follow (leader (auctions s aid)) (bids_on vf aid txs)"
  using assms
proof (induction txs arbitrary: s)
  case Nil
  show ?case by simp
next
  case (Cons t txs)
  obtain c x where t: "t = (c, x)" by (cases t)
  let ?s = "snd (exec vf c x s)"
  from exec_leader [OF Cons.prems, of vf c x]
  have 1: "created (auctions ?s aid)" and 2: "aid \<le> auctionCount ?s"
    and 3: "leader (auctions ?s aid) = follow (leader (auctions s aid)) (bids_on vf aid [(c, x)])"
    by auto
  have "leader (auctions (exec_all vf (t # txs) s) aid)
          = follow (leader (auctions ?s aid)) (bids_on vf aid txs)"
    using Cons.IH [OF 1 2] by (simp add: t)
  also have "\<dots> = follow (leader (auctions s aid)) (bids_on vf aid (t # txs))"
    unfolding t by (subst bids_on_Cons) (simp only: 3 follow_append)
  finally show ?case .
qed

lemma follow_winning:
  "follow (v, w, t) bs =
     (if winning v bs = [] then (v, w, t)
      else (bid_value (last (winning v bs)), bid_sender (last (winning v bs)),
            ucast (bid_time (last (winning v bs)))))"
  by (induction bs arbitrary: v w t) simp_all

lemma winning_Max:
  "Max (insert v (bid_value ` set (winning v bs)))
     = (if winning v bs = [] then v else bid_value (last (winning v bs)))"
proof (induction bs arbitrary: v)
  case Nil
  show ?case by simp
next
  case (Cons b bs)
  show ?case
  proof (cases "v < bid_value b")
    case False
    with Cons.IH [of v] show ?thesis by simp
  next
    case True
    let ?M = "Max (insert (bid_value b) (bid_value ` set (winning (bid_value b) bs)))"
    have "bid_value b \<le> ?M"
      by simp
    with True have "v \<le> ?M"
      by (meson less_imp_le order_trans)
    then have "max v ?M = ?M"
      by (rule max_absorb2)
    moreover have "Max (insert v (bid_value ` set (winning v (b # bs)))) = max v ?M"
      using True by simp
    ultimately show ?thesis
      using True Cons.IH [of "bid_value b"] by simp
  qed
qed



lemma winning_Max_all:
  "Max (insert v (bid_value ` set (winning v bs))) = Max (insert v (bid_value ` set bs))"
proof (induction bs arbitrary: v)
  case Nil
  show ?case by simp
next
  case (Cons b bs)
  show ?case
  proof (cases "v < bid_value b")
    case True
    have "Max (insert v (bid_value ` set (winning v (b # bs))))
            = max v (Max (insert (bid_value b) (bid_value ` set (winning (bid_value b) bs))))"
      using True by simp
    also have "\<dots> = max v (Max (insert (bid_value b) (bid_value ` set bs)))"
      by (simp only: Cons.IH)
    also have "\<dots> = Max (insert v (bid_value ` set (b # bs)))"
      by simp
    finally show ?thesis .
  next
    case False
    then have le: "bid_value b \<le> v"
      by simp
    have "v \<le> Max (insert v (bid_value ` set bs))"
      by simp
    with le have "bid_value b \<le> Max (insert v (bid_value ` set bs))"
      by (rule order_trans)
    then have "max (bid_value b) (Max (insert v (bid_value ` set bs)))
                 = Max (insert v (bid_value ` set bs))"
      by (rule max_absorb2)
    moreover have "insert v (bid_value ` set (b # bs))
                     = insert (bid_value b) (insert v (bid_value ` set bs))"
      by auto
    then have "Max (insert v (bid_value ` set (b # bs)))
                 = max (bid_value b) (Max (insert v (bid_value ` set bs)))"
      by (simp only: Max_insert [of "insert v (bid_value ` set bs)" "bid_value b"]
          finite_insert finite_imageI finite_set insert_not_empty not_False_eq_True)
    ultimately show ?thesis
      using False Cons.IH [of v] by simp
  qed
qed

lemma createAuction_leader:
  assumes "createAuction c nm sp s = Inr (aid, s')"
  shows "created (auctions s' aid) \<and> aid \<le> auctionCount s' \<and>
         plain (startPrice (auctions s' aid)) = sp \<and>
         leader (auctions s' aid) = (sp, 0, ucast (block_timestamp c))"
  using assms by (auto simp: createAuction_def engine_defs Let_def leader_def split: if_splits)

lemma widget_created:
  "createAuction (alice_at 1000) ''Widget'' 100 deployed = Inr (1, widget)"
  by (simp add: widget_def createAuction_def engine_defs sample_defs Let_def)

lemma scenario_bids:
  "bids_on sample_verifier 1 scenario
     = [Submitted 150 10 1010, Submitted 120 11 1020, Submitted 200 11 1030]"
  by (simp add: scenario_def sample_defs)

subsection \<open>Creation\<close>

text \<open>
  Claim C9 as stated fails on the time. \<open>lastBidTime\<close> is made from
  \<open>uint64(block.timestamp)\<close>: created at time \<open>2^64 + 1000\<close>, the record has that time as
  \<open>createdAt\<close>, while \<open>lastBidTime\<close> stands for 1000.
\<close>

theorem createAuction_lastBidTime_truncated:
  "\<exists>aid s'. createAuction (alice_at 18446744073709552616) ''Widget'' 100 deployed = Inr (aid, s') \<and>
     createdAt (auctions s' aid) = 18446744073709552616 \<and>
     unat (plain (lastBidTime (auctions s' aid))) = 1000 \<and>
     unat (plain (lastBidTime (auctions s' aid)))
       \<noteq> unat (block_timestamp (alice_at 18446744073709552616))"
  by (simp add: createAuction_def engine_defs sample_defs Let_def)

text \<open>
  Claim C9, amended. Every call of \<open>createAuction\<close> that does not exhaust the id space
  returns, and in the record it creates \<open>highestBid\<close> is the very handle stored as
  \<open>startPrice\<close>, which stands for the start price given; \<open>highestBidder\<close> stands for the zero
  address; \<open>lastBidTime\<close> stands for the creation timestamp cut to 64 bits,
  \<open>uint64(block.timestamp)\<close>, that is the creation timestamp modulo \<open>2^64\<close>, which is the
  creation timestamp itself (the value of \<open>createdAt\<close>) whenever that is below \<open>2^64\<close>.
\<close>

theorem createAuction_initial_leader:
  assumes "auctionCount s \<noteq> - 1"
  shows "\<exists>aid s'. createAuction c nm sp s = Inr (aid, s') \<and>
           highestBid (auctions s' aid) = startPrice (auctions s' aid) \<and>
           plain (startPrice (auctions s' aid)) = sp \<and>
           plain (highestBidder (auctions s' aid)) = 0 \<and>
           createdAt (auctions s' aid) = block_timestamp c \<and>
           plain (lastBidTime (auctions s' aid)) = ucast (block_timestamp c) \<and>
           unat (plain (lastBidTime (auctions s' aid))) = unat (block_timestamp c) mod 2 ^ 64 \<and>
           (unat (block_timestamp c) < 2 ^ 64 \<longrightarrow>
              unat (plain (lastBidTime (auctions s' aid))) = unat (createdAt (auctions s' aid)))"
  using assms
  by (simp add: createAuction_def engine_defs Let_def unat_ucast_256_64 del: unsigned_ucast_eq)

theorem createAuction_initial_leader_witness:
  "auctionCount deployed \<noteq> - 1 \<and> unat (block_timestamp (alice_at 1000)) < 2 ^ 64 \<and>
   (\<exists>aid s'. createAuction (alice_at 1000) ''Widget'' 100 deployed = Inr (aid, s') \<and>
      highestBid (auctions s' aid) = startPrice (auctions s' aid) \<and>
      plain (startPrice (auctions s' aid)) = 100 \<and>
      plain (highestBidder (auctions s' aid)) = 0 \<and>
      createdAt (auctions s' aid) = 1000 \<and>
      unat (plain (lastBidTime (auctions s' aid))) = 1000)"
proof -
  have h: "auctionCount deployed \<noteq> - 1"
    by (simp add: deployed_def)
  have t: "block_timestamp (alice_at 1000) = 1000"
    by (simp add: alice_at_def)
  from createAuction_initial_leader [OF h, of "alice_at 1000" "''Widget''" 100]
  obtain aid s' where "createAuction (alice_at 1000) ''Widget'' 100 deployed = Inr (aid, s')"
    and "highestBid (auctions s' aid) = startPrice (auctions s' aid)"
    and "plain (startPrice (auctions s' aid)) = 100"
    and "plain (highestBidder (auctions s' aid)) = 0"
    and "createdAt (auctions s' aid) = 1000"
    and "unat (plain (lastBidTime (auctions s' aid))) = 1000"
    unfolding t by auto
  then show ?thesis
    using h by (auto simp: t)
qed

subsection \<open>Frame of a bid\<close>

text \<open>
  Claim C8. A successful bid leaves the name, start price, creation time and existence flag
  of the auction it targets as they were, leaves the id counter as it was, and leaves the
  record of every other auction as it was.
\<close>

theorem bid_frame:
  assumes "bid vf c aid h p s = Inr (r, s')"
  shows "name (auctions s' aid) = name (auctions s aid) \<and>
         startPrice (auctions s' aid) = startPrice (auctions s aid) \<and>
         createdAt (auctions s' aid) = createdAt (auctions s aid) \<and>
         created (auctions s' aid) = created (auctions s aid) \<and>
         auctionCount s' = auctionCount s \<and>
         (\<forall>j. j \<noteq> aid \<longrightarrow> auctions s' j = auctions s j)"
  using assms
  by (auto simp: bid_def engine_defs Let_def split: if_splits option.splits)

theorem bid_frame_witness:
  "\<exists>r s'. bid sample_verifier (alice_at 1010) 1 150 [1] widget = Inr (r, s') \<and>
     name (auctions s' 1) = ''Widget'' \<and> startPrice (auctions s' 1) = Cipher 1 100 \<and>
     createdAt (auctions s' 1) = 1000 \<and> created (auctions s' 1) \<and> auctionCount s' = 1 \<and>
     auctions s' 2 = zeroAuction"
proof -
  have "created (auctions widget 1)" and "sample_verifier (alice_at 1010) 150 [1] = Some 150"
    by (simp_all add: widget_auction sample_verifier_def)
  then obtain r s' where h: "bid sample_verifier (alice_at 1010) 1 150 [1] widget = Inr (r, s')"
    using bid_returns by blast
  from bid_frame [OF h] show ?thesis
    using h by (simp add: widget_auction widget_count widget_other)
qed

subsection \<open>Unknown ids\<close>

text \<open>
  Claim C3. On an id whose record has no existence flag, each of \<open>getAuctionInfo\<close>,
  \<open>getEncryptedHighestBid\<close>, \<open>getEncryptedHighestBidder\<close>, \<open>bid\<close> and \<open>checkEnded\<close> fails
  with \<open>AUCTION_NOT_FOUND\<close>, and the call leaves the whole state as it was.
\<close>

theorem not_found_closure:
  assumes "\<not> created (auctions s aid)"
  shows "getAuctionInfo aid s = Inl AUCTION_NOT_FOUND \<and>
         getEncryptedHighestBid aid s = Inl AUCTION_NOT_FOUND \<and>
         getEncryptedHighestBidder aid s = Inl AUCTION_NOT_FOUND \<and>
         bid vf c aid h p s = Inl AUCTION_NOT_FOUND \<and>
         checkEnded c aid s = Inl AUCTION_NOT_FOUND \<and>
         exec vf c (GetAuctionInfo aid) s = (Inl AUCTION_NOT_FOUND, s) \<and>
         exec vf c (GetEncryptedHighestBid aid) s = (Inl AUCTION_NOT_FOUND, s) \<and>
         exec vf c (GetEncryptedHighestBidder aid) s = (Inl AUCTION_NOT_FOUND, s) \<and>
         exec vf c (Bid aid h p) s = (Inl AUCTION_NOT_FOUND, s) \<and>
         exec vf c (CheckEnded aid) s = (Inl AUCTION_NOT_FOUND, s)"
  using assms
  by (simp add: getAuctionInfo_def getEncryptedHighestBid_def getEncryptedHighestBidder_def
      bid_def checkEnded_def)

theorem not_found_closure_witness:
  "\<not> created (auctions widget 999) \<and>
   getAuctionInfo 999 widget = Inl AUCTION_NOT_FOUND \<and>
   exec sample_verifier (bob_at 1020) (Bid 999 120 [1]) widget = (Inl AUCTION_NOT_FOUND, widget) \<and>
   exec sample_verifier (bob_at 1020) (CheckEnded 999) widget = (Inl AUCTION_NOT_FOUND, widget)"
proof -
  have h: "\<not> created (auctions widget 999)"
    by (simp add: widget_other zeroAuction_def)
  show ?thesis
    using h not_found_closure [OF h, of sample_verifier "bob_at 1020" 120 "[1]"] by simp
qed

subsection \<open>Ties\<close>

text \<open>
  Claim C2. On an existing auction, a bid whose value equals the value \<open>highestBid\<close> stands
  for leaves the values of \<open>highestBid\<close>, \<open>highestBidder\<close> and \<open>lastBidTime\<close> as they
  were, and the encrypted boolean it returns stands for false. A bid after which one of the
  three values differs was strictly greater than the value \<open>highestBid\<close> stood for.
\<close>

theorem bid_tie_policy:
  assumes "created (auctions s aid)" and "vf c h p = Some v"
  shows "\<exists>r s'. bid vf c aid h p s = Inr (r, s') \<and>
           (v = plain (highestBid (auctions s aid)) \<longrightarrow>
              leader (auctions s' aid) = leader (auctions s aid) \<and> \<not> plain r) \<and>
           (leader (auctions s' aid) \<noteq> leader (auctions s aid) \<longrightarrow>
              plain (highestBid (auctions s aid)) < v)"
  using assms by (simp add: bid_def engine_defs Let_def leader_def)

theorem bid_tie_policy_witness:
  "created (auctions widget 1) \<and> sample_verifier (bob_at 1020) 100 [1] = Some 100 \<and>
   (\<exists>r s'. bid sample_verifier (bob_at 1020) 1 100 [1] widget = Inr (r, s') \<and>
      leader (auctions s' 1) = (100, 0, 1000) \<and> \<not> plain r)"
proof -
  have h1: "created (auctions widget 1)"
    by (simp add: widget_auction)
  have h2: "sample_verifier (bob_at 1020) 100 [1] = Some 100"
    by (simp add: sample_verifier_def)
  have l: "leader (auctions widget 1) = (100, 0, 1000)"
    by (simp add: widget_auction leader_def)
  have hb: "plain (highestBid (auctions widget 1)) = 100"
    by (simp add: widget_auction)
  from bid_tie_policy [where s = widget and aid = 1 and vf = sample_verifier
      and c = "bob_at 1020" and h = 100 and p = "[1]" and v = 100, OF h1 h2]
  obtain r s' where "bid sample_verifier (bob_at 1020) 1 100 [1] widget = Inr (r, s')"
    and "leader (auctions s' 1) = leader (auctions widget 1)" and "\<not> plain r"
    using hb by auto
  then show ?thesis
    using h1 h2 l by auto
qed

subsection \<open>The leader fields change together\<close>

text \<open>
  Claim C6. A successful bid returns the comparison result \<open>isHighest\<close>, and the three leader
  values after it are chosen by that one result: all three are the bid's (value, submitter,
  time) when it stands for true, all three are the old ones when it stands for false. Over
  any call whatever, the leader triple of any auction is either as before, or wholly the
  triple of a strictly greater bid on that auction, or wholly the initial triple of the
  auction that the call creates: no state between two calls has a part of the triple
  updated.
\<close>

theorem leader_triple_atomic:
  "(\<forall>r s'. bid vf c aid h p s = Inr (r, s') \<longrightarrow>
      (\<exists>v. vf c h p = Some v \<and> plain r = (plain (highestBid (auctions s aid)) < v) \<and>
         leader (auctions s' aid) =
           (if plain r then (v, msg_sender c, ucast (block_timestamp c))
            else leader (auctions s aid)))) \<and>
   (leader (auctions (snd (exec vf c x s)) j) = leader (auctions s j) \<or>
    (\<exists>h p v. x = Bid j h p \<and> vf c h p = Some v \<and> plain (highestBid (auctions s j)) < v \<and>
       leader (auctions (snd (exec vf c x s)) j) = (v, msg_sender c, ucast (block_timestamp c))) \<or>
    (\<exists>nm sp. x = CreateAuction nm sp \<and> j = auctionCount s + 1 \<and>
       leader (auctions (snd (exec vf c x s)) j) = (sp, 0, ucast (block_timestamp c))))"
proof (rule conjI)
  show "\<forall>r s'. bid vf c aid h p s = Inr (r, s') \<longrightarrow>
      (\<exists>v. vf c h p = Some v \<and> plain r = (plain (highestBid (auctions s aid)) < v) \<and>
         leader (auctions s' aid) =
           (if plain r then (v, msg_sender c, ucast (block_timestamp c))
            else leader (auctions s aid)))"
    by (auto simp: bid_def engine_defs Let_def leader_def split: if_splits option.splits)
next
  show "leader (auctions (snd (exec vf c x s)) j) = leader (auctions s j) \<or>
    (\<exists>h p v. x = Bid j h p \<and> vf c h p = Some v \<and> plain (highestBid (auctions s j)) < v \<and>
       leader (auctions (snd (exec vf c x s)) j) = (v, msg_sender c, ucast (block_timestamp c))) \<or>
    (\<exists>nm sp. x = CreateAuction nm sp \<and> j = auctionCount s + 1 \<and>
       leader (auctions (snd (exec vf c x s)) j) = (sp, 0, ucast (block_timestamp c)))"
  proof (cases x)
    case (CreateAuction nm sp)
    then show ?thesis
      by (simp add: createAuction_def engine_defs Let_def leader_def)
  next
    case (Bid i h p)
    then show ?thesis
      by (cases "vf c h p") (simp_all add: bid_def engine_defs Let_def leader_def)
  next
    case (CheckEnded i)
    then show ?thesis
      by (simp add: checkEnded_def engine_defs Let_def)
  qed (simp_all add: getAuctionInfo_def getEncryptedHighestBid_def
      getEncryptedHighestBidder_def Let_def)
qed

theorem leader_triple_atomic_witness:
  "\<exists>r s'. bid sample_verifier (alice_at 1010) 1 150 [1] widget = Inr (r, s') \<and>
     plain r \<and> leader (auctions s' 1) = (150, 10, 1010)"
proof -
  have "created (auctions widget 1)" and v: "sample_verifier (alice_at 1010) 150 [1] = Some 150"
    by (simp_all add: widget_auction sample_verifier_def)
  then obtain r s' where b: "bid sample_verifier (alice_at 1010) 1 150 [1] widget = Inr (r, s')"
    using bid_returns by blast
  have "plain (highestBid (auctions widget 1)) = 100"
    by (simp add: widget_auction)
  with b v show ?thesis
    using leader_triple_atomic [of sample_verifier "alice_at 1010" 1 150 "[1]" widget
        "Bid 1 150 [1]" 1]
    by (auto simp: alice_at_def)
qed

subsection \<open>Grants\<close>

text \<open>
  Claim C7. After a successful bid the access-control list grants the contract itself the
  three new leader handles, and grants the caller the returned \<open>isHighest\<close> handle and the
  three new leader handles. After a successful \<open>createAuction\<close> it grants the contract the
  four encrypted fields of the new record. No call, and no sequence of calls, removes a
  grant.
\<close>

theorem grants_maintained:
  "(\<forall>r s'. bid vf c aid h p s = Inr (r, s') \<longrightarrow>
      {(handle (highestBid (auctions s' aid)), this c),
       (handle (highestBidder (auctions s' aid)), this c),
       (handle (lastBidTime (auctions s' aid)), this c),
       (handle r, msg_sender c),
       (handle (highestBid (auctions s' aid)), msg_sender c),
       (handle (highestBidder (auctions s' aid)), msg_sender c),
       (handle (lastBidTime (auctions s' aid)), msg_sender c)} \<subseteq> acl (fhe s')) \<and>
   (\<forall>i s'. createAuction c nm sp s = Inr (i, s') \<longrightarrow>
      {(handle (startPrice (auctions s' i)), this c),
       (handle (highestBid (auctions s' i)), this c),
       (handle (highestBidder (auctions s' i)), this c),
       (handle (lastBidTime (auctions s' i)), this c)} \<subseteq> acl (fhe s')) \<and>
   acl (fhe s) \<subseteq> acl (fhe (snd (exec vf c x s))) \<and>
   acl (fhe s) \<subseteq> acl (fhe (exec_all vf txs s))"
proof (intro conjI allI impI)
  fix r s'
  assume "bid vf c aid h p s = Inr (r, s')"
  then show "{(handle (highestBid (auctions s' aid)), this c),
       (handle (highestBidder (auctions s' aid)), this c),
       (handle (lastBidTime (auctions s' aid)), this c),
       (handle r, msg_sender c),
       (handle (highestBid (auctions s' aid)), msg_sender c),
       (handle (highestBidder (auctions s' aid)), msg_sender c),
       (handle (lastBidTime (auctions s' aid)), msg_sender c)} \<subseteq> acl (fhe s')"
    by (auto simp: bid_def engine_defs Let_def split: if_splits option.splits)
next
  fix i s'
  assume "createAuction c nm sp s = Inr (i, s')"
  then show "{(handle (startPrice (auctions s' i)), this c),
       (handle (highestBid (auctions s' i)), this c),
       (handle (highestBidder (auctions s' i)), this c),
       (handle (lastBidTime (auctions s' i)), this c)} \<subseteq> acl (fhe s')"
    by (auto simp: createAuction_def engine_defs Let_def split: if_splits)
next
  show "acl (fhe s) \<subseteq> acl (fhe (snd (exec vf c x s)))"
    by (rule exec_acl_mono)
next
  show "acl (fhe s) \<subseteq> acl (fhe (exec_all vf txs s))"
    by (rule exec_all_acl_mono)
qed

theorem grants_maintained_witness:
  "\<exists>r s'. bid sample_verifier (alice_at 1010) 1 150 [1] widget = Inr (r, s') \<and>
     (handle (highestBid (auctions s' 1)), 192) \<in> acl (fhe s') \<and>
     (handle (highestBidder (auctions s' 1)), 192) \<in> acl (fhe s') \<and>
     (handle (lastBidTime (auctions s' 1)), 192) \<in> acl (fhe s') \<and>
     (handle r, 10) \<in> acl (fhe s') \<and>
     (handle (highestBid (auctions s' 1)), 10) \<in> acl (fhe s') \<and>
     (handle (highestBidder (auctions s' 1)), 10) \<in> acl (fhe s') \<and>
     (handle (lastBidTime (auctions s' 1)), 10) \<in> acl (fhe s') \<and>
     (1, 192) \<in> acl (fhe s')"
proof -
  have "created (auctions widget 1)" and "sample_verifier (alice_at 1010) 150 [1] = Some 150"
    by (simp_all add: widget_auction sample_verifier_def)
  then obtain r s' where b: "bid sample_verifier (alice_at 1010) 1 150 [1] widget = Inr (r, s')"
    using bid_returns by blast
  then have x: "snd (exec sample_verifier (alice_at 1010) (Bid 1 150 [1]) widget) = s'"
    by simp
  have "(1, 192) \<in> acl (fhe widget)"
    by (rule widget_grant)
  with b x show ?thesis
    using grants_maintained [of sample_verifier "alice_at 1010" 1 150 "[1]" widget
        "[]" 0 "Bid 1 150 [1]" "[]"]
    by (auto simp: alice_at_def)
qed

subsection \<open>The timeout\<close>

text \<open>
  Away from the overflow of the sum the result is the comparison of natural numbers, and a
  call leaves the auction records and the counter as they were, so every call computes the
  result afresh from the time of that call.
\<close>

lemma checkEnded_in_range:
  assumes "created (auctions s aid)"
  shows "\<exists>r s'. checkEnded c aid s = Inr (r, s') \<and>
           auctions s' = auctions s \<and> auctionCount s' = auctionCount s \<and>
           (unat (plain (lastBidTime (auctions s aid))) + 600 < 2 ^ 64 \<and>
            unat (block_timestamp c) < 2 ^ 64 \<longrightarrow>
              plain r = (unat (plain (lastBidTime (auctions s aid))) + 600
                           \<le> unat (block_timestamp c)))"
proof -
  obtain r s' where 1: "checkEnded c aid s = Inr (r, s')"
    and f: "auctions s' = auctions s" "auctionCount s' = auctionCount s"
    using checkEnded_returns [OF assms] by blast
  have "plain r = (unat (plain (lastBidTime (auctions s aid))) + 600 \<le> unat (block_timestamp c))"
    if "unat (plain (lastBidTime (auctions s aid))) + 600 < 2 ^ 64"
      and "unat (block_timestamp c) < 2 ^ 64"
    using that checkEnded_plain [OF 1]
    by (simp add: word_le_nat_alt unat_plus_600 unat_ucast_256_64)
  with 1 f show ?thesis
    by blast
qed

text \<open>
  Claim C5. On an existing auction \<open>checkEnded\<close> should return an encrypted boolean that stands
  for \<open>lastBidTime + 600 \<le> now\<close> at the time of the call, as the comment in the function
  says ("ended if (lastBidTime + 600) <= block.timestamp") and its documentation ("10
  minutes without a higher bid"). The code departs from this where the sum overflows 64
  bits: for the auction created at time \<open>2^64 - 1\<close>, a call at that very time, with no time
  elapsed since the last bid time, returns true although \<open>lastBidTime + 600\<close> is above the
  time of the call.
\<close>

theorem checkEnded_overflow_ended_at_once:
  "\<exists>r s'. checkEnded (alice_at 18446744073709551615) 1 late = Inr (r, s') \<and> plain r \<and>
     unat (plain (lastBidTime (auctions late 1)))
       = unat (block_timestamp (alice_at 18446744073709551615)) \<and>
     \<not> (unat (plain (lastBidTime (auctions late 1))) + 600
          \<le> unat (block_timestamp (alice_at 18446744073709551615)))"
  by (simp add: checkEnded_def engine_defs Let_def late_auction alice_at_def)

text \<open>
  Claim C10. The flag \<open>checkEnded\<close> returns compares the sum \<open>(lastBidTime + 600) mod 2^64\<close>
  with the 64-bit timestamp of the call. When \<open>lastBidTime\<close> exceeds \<open>2^64 - 601\<close> that sum
  is \<open>lastBidTime + 600 - 2^64\<close>, the wrapped deadline, and the flag is evaluated against it.
\<close>

theorem checkEnded_deadline_wraps:
  assumes "checkEnded c aid s = Inr (r, s')"
  shows "plain r = ((unat (plain (lastBidTime (auctions s aid))) + 600) mod 2 ^ 64
                      \<le> unat (ucast (block_timestamp c) :: uint64)) \<and>
         (2 ^ 64 - 601 < unat (plain (lastBidTime (auctions s aid))) \<longrightarrow>
            (unat (plain (lastBidTime (auctions s aid))) + 600) mod 2 ^ 64
               = unat (plain (lastBidTime (auctions s aid))) + 600 - 2 ^ 64 \<and>
            plain r = (unat (plain (lastBidTime (auctions s aid))) + 600 - 2 ^ 64
                         \<le> unat (ucast (block_timestamp c) :: uint64)))"
proof -
  let ?l = "plain (lastBidTime (auctions s aid))"
  have a: "plain r = ((unat ?l + 600) mod 2 ^ 64 \<le> unat (ucast (block_timestamp c) :: uint64))"
    using checkEnded_plain [OF assms] by (simp add: word_le_nat_alt unat_plus_600)
  have b: "(unat ?l + 600) mod 2 ^ 64 = unat ?l + 600 - 2 ^ 64" if "2 ^ 64 - 601 < unat ?l"
  proof -
    have "unat ?l < 2 ^ 64"
      using unsigned_less [of ?l] by simp
    with that have "2 ^ 64 \<le> unat ?l + 600" and "unat ?l + 600 - 2 ^ 64 < 2 ^ 64"
      by simp_all
    then show ?thesis
      by (metis le_mod_geq mod_less)
  qed
  from a b show ?thesis
    by simp
qed

theorem checkEnded_deadline_wraps_witness:
  "2 ^ 64 - 601 < unat (plain (lastBidTime (auctions late 1))) \<and>
   (\<exists>r s'. checkEnded (alice_at 18446744073709551615) 1 late = Inr (r, s') \<and> plain r \<and>
      (unat (plain (lastBidTime (auctions late 1))) + 600) mod 2 ^ 64 = 599)"
proof -
  have "created (auctions late 1)"
    by (simp add: late_auction)
  then obtain r s' where h: "checkEnded (alice_at 18446744073709551615) 1 late = Inr (r, s')"
    using checkEnded_returns by blast
  have l: "unat (plain (lastBidTime (auctions late 1))) = 18446744073709551615"
    by (simp add: late_auction)
  have t: "unat (ucast (block_timestamp (alice_at 18446744073709551615)) :: uint64)
             = 18446744073709551615"
    by (simp add: alice_at_def)
  from checkEnded_deadline_wraps [OF h] h show ?thesis
    unfolding l t by simp
qed

subsection \<open>Auction ids\<close>

text \<open>
  Claim C4. In every state that a sequence of calls reaches from the deployed contract, the
  existing ids are exactly \<open>1 .. auctionCount\<close>, and id 0 does not exist. The first
  \<open>createAuction\<close> returns id 1; a \<open>createAuction\<close> that succeeds in a reachable state returns
  \<open>auctionCount + 1\<close>, an id strictly above the counter that did not exist before, and sets
  the counter to it.
\<close>

theorem ids_dense:
  assumes "s = exec_all vf txs deployed"
  shows "{i. created (auctions s i)} = {1 .. auctionCount s} \<and>
         \<not> created (auctions s 0) \<and>
         (\<exists>s1. createAuction c nm sp deployed = Inr (1, s1)) \<and>
         (\<forall>i s'. createAuction c nm sp s = Inr (i, s') \<longrightarrow>
            i = auctionCount s + 1 \<and> auctionCount s < i \<and> \<not> created (auctions s i) \<and>
            auctionCount s' = i \<and> {j. created (auctions s' j)} = {1 .. i})"
proof -
  have d: "dense s"
    unfolding assms by (rule exec_all_dense [OF deployed_dense])
  show ?thesis
  proof (intro conjI allI impI)
    show "{i. created (auctions s i)} = {1 .. auctionCount s}"
      by (rule dense_set [OF d])
    show "\<not> created (auctions s 0)"
      by (rule dense_zero [OF d])
    show "\<exists>s1. createAuction c nm sp deployed = Inr (1, s1)"
      by (rule createAuction_first)
  qed (use createAuction_new [OF d] in \<open>blast+\<close>)
qed

theorem ids_dense_witness:
  "widget = exec_all sample_verifier [(alice_at 1000, CreateAuction ''Widget'' 100)] deployed \<and>
   {i. created (auctions widget i)} = {1 .. 1} \<and> \<not> created (auctions widget 0) \<and>
   (\<exists>s'. createAuction (bob_at 1005) ''Gadget'' 5 widget = Inr (2, s') \<and>
      {j. created (auctions s' j)} = {1 .. 2})"
proof -
  have h: "widget = exec_all sample_verifier [(alice_at 1000, CreateAuction ''Widget'' 100)] deployed"
    by (simp add: widget_def)
  obtain s' where c: "createAuction (bob_at 1005) ''Gadget'' 5 widget = Inr (2, s')"
    using createAuction_returns [of widget "bob_at 1005" "''Gadget''" 5]
    by (auto simp: widget_count)
  note t = ids_dense [OF h, of "bob_at 1005" "''Gadget''" 5]
  from t have 1: "{i. created (auctions widget i)} = {1 .. 1}"
    unfolding widget_count by (rule conjunct1)
  from t have 2: "\<not> created (auctions widget 0)"
    by (rule conjunct2 [THEN conjunct1])
  from t c have 3: "{j. created (auctions s' j)} = {1 .. 2}"
    by blast
  from h 1 2 3 c show ?thesis
    by blast
qed

subsection \<open>The leader is the maximum\<close>

text \<open>
  Claim C1 as stated fails on the time. \<open>lastBidTime\<close> is made from
  \<open>uint64(block.timestamp)\<close>: after a bid of 150 on the sample auction at time \<open>2^64 + 1000\<close>
  the leader is that bid, and \<open>lastBidTime\<close> stands for 1000, not for its submission time.
\<close>

theorem leader_time_truncated:
  "winning 100 (bids_on sample_verifier 1 [(bob_at 18446744073709552616, Bid 1 150 [1])])
     = [Submitted 150 11 18446744073709552616] \<and>
   leader (auctions (exec_all sample_verifier
       [(bob_at 18446744073709552616, Bid 1 150 [1])] widget) 1) = (150, 11, 1000) \<and>
   unat (plain (lastBidTime (auctions (exec_all sample_verifier
       [(bob_at 18446744073709552616, Bid 1 150 [1])] widget) 1)))
     \<noteq> unat (bid_time (Submitted 150 11 18446744073709552616))"
  by (simp add: bid_def engine_defs Let_def leader_def widget_auction sample_verifier_def
      bob_at_def)

text \<open>
  Claim C1, amended. Take the auction that a successful \<open>createAuction\<close> creates with start
  price \<open>sp\<close>, and any calls \<open>txs\<close> after it. The value \<open>highestBid\<close> stands for is then the
  maximum of \<open>sp\<close> and the values of the accepted bids on the auction that were strictly
  greater than the leading value at their time of submission (which is also the maximum of
  \<open>sp\<close> and the values of all accepted bids on it). When no bid was strictly greater,
  \<open>highestBidder\<close> stands for the zero address and \<open>lastBidTime\<close> for the creation time cut to
  64 bits; otherwise \<open>highestBid\<close> and \<open>highestBidder\<close> stand for the value and the submitter
  of the last such bid, which is the one that carries the maximum, and \<open>lastBidTime\<close> stands
  for its submission time cut to 64 bits, \<open>uint64(block.timestamp)\<close>: the submission time
  modulo \<open>2^64\<close>, which is the submission time itself whenever that is below \<open>2^64\<close>. The
  start price is the value the field \<open>startPrice\<close> stands for throughout.
\<close>

theorem leader_monotonicity:
  assumes "createAuction c0 nm sp s0 = Inr (aid, s1)"
  shows "plain (startPrice (auctions (exec_all vf txs s1) aid)) = sp \<and>
         plain (highestBid (auctions (exec_all vf txs s1) aid))
           = Max (insert sp (bid_value ` set (winning sp (bids_on vf aid txs)))) \<and>
         plain (highestBid (auctions (exec_all vf txs s1) aid))
           = Max (insert sp (bid_value ` set (bids_on vf aid txs))) \<and>
         (winning sp (bids_on vf aid txs) = [] \<longrightarrow>
            leader (auctions (exec_all vf txs s1) aid) = (sp, 0, ucast (block_timestamp c0)) \<and>
            unat (plain (lastBidTime (auctions (exec_all vf txs s1) aid)))
              = unat (block_timestamp c0) mod 2 ^ 64) \<and>
         (winning sp (bids_on vf aid txs) \<noteq> [] \<longrightarrow>
            leader (auctions (exec_all vf txs s1) aid)
              = (bid_value (last (winning sp (bids_on vf aid txs))),
                 bid_sender (last (winning sp (bids_on vf aid txs))),
                 ucast (bid_time (last (winning sp (bids_on vf aid txs))))) \<and>
            unat (plain (lastBidTime (auctions (exec_all vf txs s1) aid)))
              = unat (bid_time (last (winning sp (bids_on vf aid txs)))) mod 2 ^ 64 \<and>
            (unat (bid_time (last (winning sp (bids_on vf aid txs)))) < 2 ^ 64 \<longrightarrow>
               unat (plain (lastBidTime (auctions (exec_all vf txs s1) aid)))
                 = unat (bid_time (last (winning sp (bids_on vf aid txs))))))"
proof -
  let ?ws = "winning sp (bids_on vf aid txs)"
  let ?a = "auctions (exec_all vf txs s1) aid"
  from createAuction_leader [OF assms]
  have cr: "created (auctions s1 aid)" and le: "aid \<le> auctionCount s1"
    and s0: "plain (startPrice (auctions s1 aid)) = sp"
    and l0: "leader (auctions s1 aid) = (sp, 0, ucast (block_timestamp c0))"
    by auto
  have st: "plain (startPrice ?a) = sp"
    using exec_all_startPrice [OF cr le, of vf txs] s0 by simp
  have l: "leader ?a =
      (if ?ws = [] then (sp, 0, ucast (block_timestamp c0))
       else (bid_value (last ?ws), bid_sender (last ?ws), ucast (bid_time (last ?ws))))"
    unfolding exec_all_leader [OF cr le] l0 by (rule follow_winning)
  have "plain (highestBid ?a) = fst (leader ?a)"
    by (simp add: leader_def)
  also have "\<dots> = (if ?ws = [] then sp else bid_value (last ?ws))"
    by (simp add: l)
  also have "\<dots> = Max (insert sp (bid_value ` set ?ws))"
    by (rule winning_Max [symmetric])
  finally have m: "plain (highestBid ?a) = Max (insert sp (bid_value ` set ?ws))" .
  have m': "plain (highestBid ?a) = Max (insert sp (bid_value ` set (bids_on vf aid txs)))"
    using m by (simp only: winning_Max_all)
  have e: "leader ?a = (sp, 0, ucast (block_timestamp c0))" if "?ws = []"
    using l that by simp
  have n: "leader ?a = (bid_value (last ?ws), bid_sender (last ?ws), ucast (bid_time (last ?ws)))"
    if "?ws \<noteq> []"
    using l that by simp
  have t0: "unat (plain (lastBidTime ?a)) = unat (block_timestamp c0) mod 2 ^ 64" if "?ws = []"
  proof -
    from e [OF that] have "plain (lastBidTime ?a) = ucast (block_timestamp c0)"
      by (simp add: leader_def)
    then show ?thesis
      by (simp only: unat_ucast_256_64)
  qed
  have t1: "unat (plain (lastBidTime ?a)) = unat (bid_time (last ?ws)) mod 2 ^ 64"
    if "?ws \<noteq> []"
  proof -
    from n [OF that] have "plain (lastBidTime ?a) = ucast (bid_time (last ?ws))"
      by (simp add: leader_def)
    then show ?thesis
      by (simp only: unat_ucast_256_64)
  qed
  have t2: "unat (plain (lastBidTime ?a)) = unat (bid_time (last ?ws))"
    if "?ws \<noteq> []" and "unat (bid_time (last ?ws)) < 2 ^ 64"
    using t1 [OF that(1)] that(2) by (simp only: mod_less)
  from st m m' e t0 n t1 t2 show ?thesis
    by blast
qed

theorem leader_monotonicity_witness:
  "createAuction (alice_at 1000) ''Widget'' 100 deployed = Inr (1, widget) \<and>
   winning 100 (bids_on sample_verifier 1 scenario)
     = [Submitted 150 10 1010, Submitted 200 11 1030] \<and>
   unat (bid_time (Submitted 200 11 1030)) < 2 ^ 64 \<and>
   leader (auctions (exec_all sample_verifier scenario widget) 1) = (200, 11, 1030) \<and>
   plain (highestBid (auctions (exec_all sample_verifier scenario widget) 1)) = 200 \<and>
   unat (plain (lastBidTime (auctions (exec_all sample_verifier scenario widget) 1))) = 1030"
proof -
  have w: "winning 100 (bids_on sample_verifier 1 scenario)
             = [Submitted 150 10 1010, Submitted 200 11 1030]"
    by (simp add: scenario_bids)
  from leader_monotonicity [OF widget_created, of sample_verifier scenario] show ?thesis
    unfolding w using widget_created by simp
qed

end
